theory Spec2Isabelle
  imports Main "HOL-Library.Word" "HOL-Library.Sublist"
begin

section \<open>Messages\<close>

text \<open>
  Go's \<open>error\<close> values. \<open>ErrChannelDoesNotExist\<close> is the package-level sentinel of
  \<open>msgprocessor\<close>; every other error (from \<open>fmt.Errorf\<close> or from a collaborator) carries
  its text.
\<close>

datatype error = ErrChannelDoesNotExist | Err string

text \<open>The header type codes of the wire protocol (\<open>cb.HeaderType\<close>).\<close>

datatype HeaderType =
    MESSAGE | CONFIG | CONFIG_UPDATE | ENDORSER_TRANSACTION
  | ORDERER_TRANSACTION | DELIVER_SEEK_INFO | CHAINCODE_PACKAGE

record ChannelHeader =
  Type :: HeaderType
  Version :: "32 word"
  ChannelId :: string
  Epoch :: "64 word"

text \<open>
  An envelope is a payload and a signature. The payload of the wire format is a byte
  string; here it is kept parsed: \<open>None\<close> is a payload (or a header) that does not
  unmarshal. The data of a payload is a marshalled message: a configuration envelope
  (opaque here), another envelope, or bytes of some other kind.
\<close>

datatype Envelope = Envelope (Payload: "Payload option") (Signature: "8 word list")
  and Payload = MkPayload (Header: "ChannelHeader option") (Data: Message)
  and Message = RawBytes "8 word list" | ConfigEnvelopeMsg "8 word list" | EnvelopeMsg Envelope

text \<open>
  Modelled from the spec: \<open>utils.ChannelHeader\<close> and \<open>utils.ChannelID\<close> (package
  \<open>protos/utils\<close>) extract the channel header, respectively the target channel ID, of
  an envelope, and fail when the header cannot be extracted.
\<close>

definition ChannelHeader :: "Envelope \<Rightarrow> error + ChannelHeader" where
  "ChannelHeader env =
     (case Payload env of
        None \<Rightarrow> Inl (Err ''no payload in envelope'')
      | Some p \<Rightarrow>
          (case Header p of
             None \<Rightarrow> Inl (Err ''no header in payload'')
           | Some chdr \<Rightarrow> Inr chdr))"

definition ChannelID :: "Envelope \<Rightarrow> error + string" where
  "ChannelID env =
     (case ChannelHeader env of
        Inl err \<Rightarrow> Inl err
      | Inr chdr \<Rightarrow> Inr (ChannelId chdr))"

section \<open>The solo ordering chain\<close>

subsection \<open>Collaborators\<close>

text \<open>
  \<open>Classification\<close> is a Go \<open>int\<close> with two named values.
\<close>

type_synonym Classification = int

definition NormalMsg :: Classification where
  "NormalMsg = 0"

definition ConfigUpdateMsg :: Classification where
  "ConfigUpdateMsg = 1"

text \<open>
  A block is a sequence of envelopes plus a header that is opaque here.
\<close>

record 'h Block =
  BlockHeader :: 'h
  BlockData :: "Envelope list"

text \<open>
  \<open>consensus.ConsenterSupport\<close>, the interface through which the loop reaches the
  message processor, the block cutter, the ledger and the shared configuration. The
  collaborators are stateful; their joint state is the opaque \<open>'s\<close>, read by every method
  and returned updated by the ones that write. \<open>Cut\<close> returns a Go slice that the loop
  compares with \<open>nil\<close>, so its result is an option (\<open>None\<close> is \<open>nil\<close>); the batches of
  \<open>Ordered\<close> are only measured and iterated over. \<open>NextBlockHeader\<close> is the header that
  \<open>CreateNextBlock\<close> computes for a batch; \<open>BatchTimeout\<close> stands for
  \<open>SharedConfig().BatchTimeout()\<close>, a duration in nanoseconds.
\<close>

record ('s, 'h) ConsenterSupport =
  ClassifyMsg :: "'s \<Rightarrow> ChannelHeader \<Rightarrow> error + Classification"
  ProcessNormalMsg :: "'s \<Rightarrow> Envelope \<Rightarrow> error + 64 word"
  Ordered :: "'s \<Rightarrow> Envelope \<Rightarrow> (Envelope list list \<times> bool) \<times> 's"
  Cut :: "'s \<Rightarrow> Envelope list option \<times> 's"
  NextBlockHeader :: "'s \<Rightarrow> Envelope list \<Rightarrow> 'h"
  WriteBlock :: "'s \<Rightarrow> 'h Block \<Rightarrow> 's"
  WriteConfigBlock :: "'s \<Rightarrow> 'h Block \<Rightarrow> 's"
  BatchTimeout :: "'s \<Rightarrow> int"

text \<open>
  Modelled from the spec: \<open>CreateNextBlock\<close> (not in the source at hand) forms the next
  block of the ledger from a batch: the block holds the envelopes of the batch, in order,
  plus metadata.
\<close>

definition CreateNextBlock :: "('s, 'h) ConsenterSupport \<Rightarrow> 's \<Rightarrow> Envelope list \<Rightarrow> 'h Block" where
  "CreateNextBlock sp s batch = \<lparr>BlockHeader = NextBlockHeader sp s batch, BlockData = batch\<rparr>"

text \<open>Go's \<open>len\<close> of a slice that may be \<open>nil\<close>.\<close>

definition len :: "'a list option \<Rightarrow> nat" where
  "len b = (case b of None \<Rightarrow> 0 | Some xs \<Rightarrow> length xs)"

definition elems :: "'a list option \<Rightarrow> 'a list" where
  "elems b = (case b of None \<Rightarrow> [] | Some xs \<Rightarrow> xs)"

subsection \<open>The sequencing loop\<close>

text \<open>
  What the loop does to the outside, in order: the blocks it hands to the ledger and the
  lines it logs.
\<close>

datatype 'h action =
    BlockWritten "'h Block"
  | ConfigBlockWritten "'h Block"
  | LogWarning string
  | LogDebug string

text \<open>
  The state of \<open>main\<close> between two iterations: the collaborators and the local variable
  \<open>timer\<close>, \<open>None\<close> for \<open>nil\<close> and \<open>Some d\<close> for \<open>time.After(d)\<close>.
\<close>

record 's chain_state =
  support :: 's
  timer :: "int option"

text \<open>The three cases of the \<open>select\<close>.\<close>

datatype event = Recv Envelope | TimerFired | ExitSignal

text \<open>
  One iteration ends by going round the loop again, by returning, or in a panic. The
  timer case receives from a \<open>nil\<close> channel while no timer is armed, which never
  proceeds: the \<open>select\<close> cannot take it.
\<close>

datatype ('s, 'h) step =
    Continue "'s chain_state" "'h action list"
  | Return "'h action list"
  | Panicked string
  | NotSelectable

text \<open>\<open>for _, batch := range batches { block := CreateNextBlock(batch); WriteBlock(block, nil) }\<close>\<close>

fun write_batches ::
  "('s, 'h) ConsenterSupport \<Rightarrow> 's \<Rightarrow> Envelope list list \<Rightarrow> 's \<times> 'h action list" where
  "write_batches sp s [] = (s, [])"
| "write_batches sp s (batch # batches) =
     (let block = CreateNextBlock sp s batch;
          s' = WriteBlock sp s block;
          (s'', acts) = write_batches sp s' batches
      in (s'', BlockWritten block # acts))"

definition on_config_update ::
  "('s, 'h) ConsenterSupport \<Rightarrow> 's chain_state \<Rightarrow> Envelope \<Rightarrow> ('s, 'h) step" where
  "on_config_update sp st msg =
     (case ProcessNormalMsg sp (support st) msg of
        Inl err \<Rightarrow> Continue st [LogWarning ''Discarding bad config message'']
      | Inr _ \<Rightarrow>
          (let (batch, s1) = Cut sp (support st);
               (s2, acts) =
                 (case batch of
                    None \<Rightarrow> (s1, [])
                  | Some b \<Rightarrow>
                      (let block = CreateNextBlock sp s1 b
                       in (WriteBlock sp s1 block, [BlockWritten block])));
               block = CreateNextBlock sp s2 [msg];
               s3 = WriteConfigBlock sp s2 block
           in Continue \<lparr>support = s3, timer = None\<rparr> (acts @ [ConfigBlockWritten block])))"

definition on_normal ::
  "('s, 'h) ConsenterSupport \<Rightarrow> 's chain_state \<Rightarrow> Envelope \<Rightarrow> ('s, 'h) step" where
  "on_normal sp st msg =
     (case ProcessNormalMsg sp (support st) msg of
        Inl err \<Rightarrow> Continue st [LogWarning ''Discarding bad normal message'']
      | Inr _ \<Rightarrow>
          (let ((batches, ok), s1) = Ordered sp (support st) msg
           in if ok \<and> length batches = 0 \<and> timer st = None
              then Continue \<lparr>support = s1, timer = Some (BatchTimeout sp s1)\<rparr> []
              else
                (let (s2, acts) = write_batches sp s1 batches
                 in Continue
                      \<lparr>support = s2, timer = (if length batches > 0 then None else timer st)\<rparr>
                      acts)))"

definition on_message ::
  "('s, 'h) ConsenterSupport \<Rightarrow> 's chain_state \<Rightarrow> Envelope \<Rightarrow> ('s, 'h) step" where
  "on_message sp st msg =
     (case ChannelHeader msg of
        Inl err \<Rightarrow>
          Panicked ''If a message has arrived to this point, it should already have had its header inspected once''
      | Inr chdr \<Rightarrow>
          (case ClassifyMsg sp (support st) chdr of
             Inl err \<Rightarrow>
               Panicked ''If a message has arrived to this point, it should already have been classified once''
           | Inr class \<Rightarrow>
               if class = ConfigUpdateMsg then on_config_update sp st msg
               else if class = NormalMsg then on_normal sp st msg
               else Panicked ''Unsupported msg classification''))"

definition on_timer :: "('s, 'h) ConsenterSupport \<Rightarrow> 's chain_state \<Rightarrow> ('s, 'h) step" where
  "on_timer sp st =
     (let (batch, s1) = Cut sp (support st)
      in if len batch = 0
         then Continue \<lparr>support = s1, timer = None\<rparr>
                [LogWarning ''Batch timer expired with no pending requests, this might indicate a bug'']
         else
           (let block = CreateNextBlock sp s1 (elems batch);
                s2 = WriteBlock sp s1 block
            in Continue \<lparr>support = s2, timer = None\<rparr>
                 [LogDebug ''Batch timer expired, creating block'', BlockWritten block]))"

definition main_step ::
  "('s, 'h) ConsenterSupport \<Rightarrow> 's chain_state \<Rightarrow> event \<Rightarrow> ('s, 'h) step" where
  "main_step sp st ev =
     (case ev of
        Recv msg \<Rightarrow> on_message sp st msg
      | TimerFired \<Rightarrow> (if timer st = None then NotSelectable else on_timer sp st)
      | ExitSignal \<Rightarrow> Return [LogDebug ''Exiting''])"

text \<open>
  How a run of \<open>main\<close> ends: still in the loop when the events run out, returned on the
  exit signal, or aborted by a panic.
\<close>

datatype status = Running | Exited | Aborted string

text \<open>
  \<open>main\<close> over the sequence of cases its \<open>select\<close> takes. The result is the status, the
  state reached and everything done on the way. A case that cannot be taken is passed
  over.
\<close>

fun main_loop ::
  "('s, 'h) ConsenterSupport \<Rightarrow> 's chain_state \<Rightarrow> event list
     \<Rightarrow> status \<times> 's chain_state \<times> 'h action list" where
  "main_loop sp st [] = (Running, st, [])"
| "main_loop sp st (ev # evs) =
     (case main_step sp st ev of
        Continue st' acts \<Rightarrow>
          (let (r, st'', acts') = main_loop sp st' evs in (r, st'', acts @ acts'))
      | Return acts \<Rightarrow> (Exited, st, acts)
      | Panicked reason \<Rightarrow> (Aborted reason, st, [])
      | NotSelectable \<Rightarrow> main_loop sp st evs)"

text \<open>\<open>var timer <-chan time.Time\<close>: the loop starts with no timer.\<close>

definition main :: "('s, 'h) ConsenterSupport \<Rightarrow> 's \<Rightarrow> event list
     \<Rightarrow> status \<times> 's chain_state \<times> 'h action list" where
  "main sp s evs = main_loop sp \<lparr>support = s, timer = None\<rparr> evs"

text \<open>The blocks handed to the ledger, ordinary and configuration alike, in order.\<close>

fun emitted :: "'h action list \<Rightarrow> 'h Block list" where
  "emitted [] = []"
| "emitted (BlockWritten b # acts) = b # emitted acts"
| "emitted (ConfigBlockWritten b # acts) = b # emitted acts"
| "emitted (_ # acts) = emitted acts"

subsection \<open>Admission and shutdown\<close>

text \<open>
  The two channels of a chain, as far as the methods below depend on them. \<open>exitChan\<close>
  carries no value and is only ever closed. \<open>sendChan\<close> is unbuffered: a send proceeds
  only while the receiver, the loop at its \<open>select\<close>, is ready to take it.
\<close>

record chain =
  exit_closed :: bool
  receiver_ready :: bool

definition newChain :: chain where
  "newChain = \<lparr>exit_closed = False, receiver_ready = False\<rparr>"

text \<open>Go's \<open>close\<close> panics on a channel that is closed already.\<close>

definition close_exitChan :: "chain \<Rightarrow> string + chain" where
  "close_exitChan ch =
     (if exit_closed ch then Inl ''close of closed channel''
      else Inr (ch\<lparr>exit_closed := True\<rparr>))"

text \<open>
  \<open>Halt\<close>: a \<open>select\<close> with a default never blocks; the receive from \<open>exitChan\<close> can
  proceed exactly when the channel is closed. \<open>Inl\<close> is a panic.
\<close>

definition Halt :: "chain \<Rightarrow> string + chain" where
  "Halt ch = (if exit_closed ch then Inr ch else close_exitChan ch)"

text \<open>One call of \<open>Halt\<close> after the other, each returning before the next begins.\<close>

fun Halts :: "nat \<Rightarrow> chain \<Rightarrow> string + chain" where
  "Halts 0 ch = Inr ch"
| "Halts (Suc n) ch = (case Halt ch of Inl p \<Rightarrow> Inl p | Inr ch' \<Rightarrow> Halts n ch')"

text \<open>
  \<open>Errored\<close> returns \<open>exitChan\<close>; a receive from it is ready exactly when it is closed.
\<close>

definition Errored_ready :: "chain \<Rightarrow> bool" where
  "Errored_ready ch = exit_closed ch"

text \<open>
  Calls of \<open>Halt\<close> that overlap. Between the \<open>select\<close> and the \<open>close\<close> of one call
  another goroutine may run, so a call is two atomic operations, and a goroutine in
  \<open>Halt\<close> is at one of three places.
\<close>

datatype halt_pc = AtSelect | AtClose | Returned

definition halt_op :: "chain \<Rightarrow> halt_pc \<Rightarrow> string + chain \<times> halt_pc" where
  "halt_op ch pc =
     (case pc of
        AtSelect \<Rightarrow> Inr (ch, if exit_closed ch then Returned else AtClose)
      | AtClose \<Rightarrow>
          (case close_exitChan ch of
             Inl p \<Rightarrow> Inl p
           | Inr ch' \<Rightarrow> Inr (ch', Returned))
      | Returned \<Rightarrow> Inr (ch, Returned))"

text \<open>
  A schedule names, step by step, the goroutine that runs its next operation; \<open>pcs\<close>
  holds the place of each goroutine. A name outside \<open>pcs\<close> runs nothing.
\<close>

fun concurrent_Halt :: "chain \<Rightarrow> halt_pc list \<Rightarrow> nat list \<Rightarrow> string + chain \<times> halt_pc list" where
  "concurrent_Halt ch pcs [] = Inr (ch, pcs)"
| "concurrent_Halt ch pcs (g # sched) =
     (if g < length pcs
      then (case halt_op ch (pcs ! g) of
              Inl p \<Rightarrow> Inl p
            | Inr (ch', pc') \<Rightarrow> concurrent_Halt ch' (pcs[g := pc']) sched)
      else concurrent_Halt ch pcs sched)"

text \<open>
  \<open>Order\<close>: a \<open>select\<close> without default over the send on \<open>sendChan\<close> and the receive
  from \<open>exitChan\<close>. It takes one of the cases that can proceed; the result lists, for each
  such case in the order of the source, the error returned (\<open>None\<close> is \<open>nil\<close>) and what
  the loop receives. The empty list is a call that blocks. \<open>configSeq\<close> is not used.
\<close>

definition Order :: "chain \<Rightarrow> Envelope \<Rightarrow> 64 word \<Rightarrow> (error option \<times> event list) list" where
  "Order ch env configSeq =
     (if receiver_ready ch then [(None, [Recv env])] else []) @
     (if exit_closed ch then [(Some (Err ''Exiting''), [])] else [])"

definition Configure ::
  "chain \<Rightarrow> Envelope \<Rightarrow> Envelope \<Rightarrow> 64 word \<Rightarrow> (error option \<times> event list) list" where
  "Configure ch configUpdate config configSeq = Order ch config configSeq"

section \<open>The system channel's message processor\<close>

definition msgVersion :: "32 word" where
  "msgVersion = 0"

definition epoch :: "64 word" where
  "epoch = 0"

text \<open>The local signer: it signs a payload, or fails.\<close>

type_synonym LocalSigner = "Payload \<Rightarrow> error + 8 word list"

text \<open>
  Modelled from the spec: \<open>utils.CreateSignedEnvelope\<close> (package \<open>protos/utils\<close>) wraps a
  message into a signed envelope of the given type, addressed to the given channel,
  stamped with the given version and epoch and signed by the given signer; it fails when
  the assembly fails.
\<close>

definition CreateSignedEnvelope ::
  "HeaderType \<Rightarrow> string \<Rightarrow> LocalSigner \<Rightarrow> Message \<Rightarrow> 32 word \<Rightarrow> 64 word \<Rightarrow> error + Envelope" where
  "CreateSignedEnvelope txType channelID signer dataMsg version ep =
     (let payload =
            MkPayload (Some \<lparr>Type = txType, Version = version, ChannelId = channelID, Epoch = ep\<rparr>)
              dataMsg
      in case signer payload of
           Inl err \<Rightarrow> Inl err
         | Inr sig \<Rightarrow> Inr (Envelope (Some payload) sig))"

text \<open>
  What \<open>SystemChannel\<close> reaches: \<open>ChainID\<close>, \<open>Signer\<close> and \<open>Sequence\<close> of the embedded
  standard channel's support, the two methods of the embedded \<open>StandardChannel\<close> it
  delegates to, and \<open>NewChannelConfig\<close> of its own support. The configuration manager
  that \<open>NewChannelConfig\<close> returns is used for its \<open>ProposeConfigUpdate\<close> alone, which
  yields a configuration envelope (opaque bytes here).
\<close>

record SystemChannel =
  ChainID :: string
  Signer :: LocalSigner
  Sequence :: "64 word"
  StandardChannel_ProcessNormalMsg :: "Envelope \<Rightarrow> error + 64 word"
  StandardChannel_ProcessConfigUpdateMsg :: "Envelope \<Rightarrow> error + Envelope \<times> 64 word"
  NewChannelConfig :: "Envelope \<Rightarrow> error + (Envelope \<Rightarrow> error + 8 word list)"

definition SystemChannel_ProcessNormalMsg :: "SystemChannel \<Rightarrow> Envelope \<Rightarrow> error + 64 word" where
  "SystemChannel_ProcessNormalMsg s msg =
     (case ChannelID msg of
        Inl err \<Rightarrow> Inl err
      | Inr channelID \<Rightarrow>
          if channelID \<noteq> ChainID s then Inl ErrChannelDoesNotExist
          else StandardChannel_ProcessNormalMsg s msg)"

definition SystemChannel_ProcessConfigUpdateMsg ::
  "SystemChannel \<Rightarrow> Envelope \<Rightarrow> error + Envelope \<times> 64 word" where
  "SystemChannel_ProcessConfigUpdateMsg s envConfigUpdate =
     (case ChannelID envConfigUpdate of
        Inl err \<Rightarrow> Inl err
      | Inr channelID \<Rightarrow>
          if channelID = ChainID s then StandardChannel_ProcessConfigUpdateMsg s envConfigUpdate
          else
            (case NewChannelConfig s envConfigUpdate of
               Inl err \<Rightarrow> Inl err
             | Inr ProposeConfigUpdate \<Rightarrow>
                 (case ProposeConfigUpdate envConfigUpdate of
                    Inl err \<Rightarrow> Inl err
                  | Inr newChannelConfigEnv \<Rightarrow>
                      (case CreateSignedEnvelope CONFIG channelID (Signer s)
                              (ConfigEnvelopeMsg newChannelConfigEnv) msgVersion epoch of
                         Inl err \<Rightarrow> Inl err
                       | Inr newChannelEnvConfig \<Rightarrow>
                           (case CreateSignedEnvelope ORDERER_TRANSACTION (ChainID s) (Signer s)
                                   (EnvelopeMsg newChannelEnvConfig) msgVersion epoch of
                              Inl err \<Rightarrow> Inl err
                            | Inr wrappedOrdererTransaction \<Rightarrow>
                                Inr (wrappedOrdererTransaction, Sequence s))))))"

section \<open>What the ordering guarantee speaks of\<close>

text \<open>
  A message passes the loop's checks under a class when its header can be extracted, the
  classifier gives that class, and the re-validation succeeds.
\<close>

definition passes :: "('s, 'h) ConsenterSupport \<Rightarrow> 's \<Rightarrow> Envelope \<Rightarrow> Classification \<Rightarrow> bool" where
  "passes sp s msg class =
     (case ChannelHeader msg of
        Inl _ \<Rightarrow> False
      | Inr chdr \<Rightarrow>
          ClassifyMsg sp s chdr = Inr class \<and>
          (case ProcessNormalMsg sp s msg of Inl _ \<Rightarrow> False | Inr _ \<Rightarrow> True))"

text \<open>
  The valid messages: a configuration update that passes, or a normal message that passes
  and that the cutter takes (the \<open>ok\<close> of \<open>Ordered\<close>).
\<close>

definition valid_msg :: "('s, 'h) ConsenterSupport \<Rightarrow> 's \<Rightarrow> Envelope \<Rightarrow> bool" where
  "valid_msg sp s msg =
     (passes sp s msg ConfigUpdateMsg \<or>
      passes sp s msg NormalMsg \<and> snd (fst (Ordered sp s msg)))"

text \<open>
  The batches as the cutter determines them while one event is handled: what \<open>Cut\<close>
  returns and then the configuration message alone; what \<open>Ordered\<close> returns; the
  forced batch of a timer expiry, unless it is empty.
\<close>

definition step_batches :: "('s, 'h) ConsenterSupport \<Rightarrow> 's chain_state \<Rightarrow> event \<Rightarrow> Envelope list list" where
  "step_batches sp st ev =
     (case ev of
        Recv msg \<Rightarrow>
          if passes sp (support st) msg ConfigUpdateMsg
          then (case fst (Cut sp (support st)) of None \<Rightarrow> [] | Some b \<Rightarrow> [b]) @ [[msg]]
          else if passes sp (support st) msg NormalMsg
          then fst (fst (Ordered sp (support st) msg))
          else []
      | TimerFired \<Rightarrow>
          (let b = fst (Cut sp (support st)) in if len b = 0 then [] else [elems b])
      | ExitSignal \<Rightarrow> [])"

text \<open>The valid messages among those admitted, in admission order.\<close>

definition admitted_by :: "('s, 'h) ConsenterSupport \<Rightarrow> 's chain_state \<Rightarrow> event \<Rightarrow> Envelope list" where
  "admitted_by sp st ev =
     (case ev of
        Recv msg \<Rightarrow> if valid_msg sp (support st) msg then [msg] else []
      | _ \<Rightarrow> [])"

fun admitted_valid :: "('s, 'h) ConsenterSupport \<Rightarrow> 's chain_state \<Rightarrow> event list \<Rightarrow> Envelope list" where
  "admitted_valid sp st [] = []"
| "admitted_valid sp st (ev # evs) =
     (case main_step sp st ev of
        Continue st' _ \<Rightarrow> admitted_by sp st ev @ admitted_valid sp st' evs
      | NotSelectable \<Rightarrow> admitted_valid sp st evs
      | _ \<Rightarrow> [])"

text \<open>The batches determined by the cutter over a run, in order.\<close>

fun cutter_batches :: "('s, 'h) ConsenterSupport \<Rightarrow> 's chain_state \<Rightarrow> event list \<Rightarrow> Envelope list list" where
  "cutter_batches sp st [] = []"
| "cutter_batches sp st (ev # evs) =
     (case main_step sp st ev of
        Continue st' _ \<Rightarrow> step_batches sp st ev @ cutter_batches sp st' evs
      | NotSelectable \<Rightarrow> cutter_batches sp st evs
      | _ \<Rightarrow> [])"

text \<open>
  What the loop relies on in a block cutter, in terms of the envelopes \<open>pend\<close> it holds
  back: \<open>Ordered\<close> returns, in order and split into batches, a first part of what was
  pending followed by the message it takes, and keeps the rest; \<open>Cut\<close> returns all that
  is pending and keeps nothing; writing to the ledger leaves the cutter alone.
\<close>

definition cutter_contract :: "('s, 'h) ConsenterSupport \<Rightarrow> ('s \<Rightarrow> Envelope list) \<Rightarrow> bool" where
  "cutter_contract sp pend \<longleftrightarrow>
     (\<forall>s msg. concat (fst (fst (Ordered sp s msg))) @ pend (snd (Ordered sp s msg)) =
               pend s @ (if snd (fst (Ordered sp s msg)) then [msg] else [])) \<and>
     (\<forall>s. elems (fst (Cut sp s)) = pend s \<and> pend (snd (Cut sp s)) = []) \<and>
     (\<forall>s b. pend (WriteBlock sp s b) = pend s) \<and>
     (\<forall>s b. pend (WriteConfigBlock sp s b) = pend s)"

section \<open>A reference instance of the collaborators\<close>

text \<open>
  A block cutter that cuts by message count, a ledger that appends, a classifier by header
  type and a validation that wants a signature; a system channel named \<open>system\<close>.
\<close>

record ref_state =
  pending :: "Envelope list"
  ledger :: "nat Block list"
  config_sequence :: "64 word"

definition ref_support :: "nat \<Rightarrow> (ref_state, nat) ConsenterSupport" where
  "ref_support n =
     \<lparr>ClassifyMsg = (\<lambda>s chdr. if Type chdr = CONFIG_UPDATE then Inr ConfigUpdateMsg else Inr NormalMsg),
      ProcessNormalMsg = (\<lambda>s env. if Signature env = [] then Inl (Err ''not signed'') else Inr (config_sequence s)),
      Ordered = (\<lambda>s msg.
        if n \<le> length (pending s @ [msg])
        then (([pending s @ [msg]], True), s\<lparr>pending := []\<rparr>)
        else (([], True), s\<lparr>pending := pending s @ [msg]\<rparr>)),
      Cut = (\<lambda>s. (if pending s = [] then None else Some (pending s), s\<lparr>pending := []\<rparr>)),
      NextBlockHeader = (\<lambda>s batch. length (ledger s)),
      WriteBlock = (\<lambda>s b. s\<lparr>ledger := ledger s @ [b]\<rparr>),
      WriteConfigBlock = (\<lambda>s b. s\<lparr>ledger := ledger s @ [b], config_sequence := config_sequence s + 1\<rparr>),
      BatchTimeout = (\<lambda>s. 2000000000)\<rparr>"

definition ref_init :: "ref_state chain_state" where
  "ref_init = \<lparr>support = \<lparr>pending = [], ledger = [], config_sequence = 0\<rparr>, timer = None\<rparr>"

definition signed_env :: "HeaderType \<Rightarrow> string \<Rightarrow> 8 word \<Rightarrow> Envelope" where
  "signed_env t c d =
     Envelope (Some (MkPayload (Some \<lparr>Type = t, Version = 0, ChannelId = c, Epoch = 0\<rparr>) (RawBytes [d]))) [1]"

definition ref_system :: SystemChannel where
  "ref_system =
     \<lparr>ChainID = ''system'',
      Signer = (\<lambda>p. Inr [7]),
      Sequence = 3,
      StandardChannel_ProcessNormalMsg = (\<lambda>env. Inr 3),
      StandardChannel_ProcessConfigUpdateMsg = (\<lambda>env. Inr (env, 3)),
      NewChannelConfig = (\<lambda>env. Inr (\<lambda>update. Inr [9]))\<rparr>"

section \<open>Properties of the sequencing loop\<close>

lemma emitted_append: "emitted (xs @ ys) = emitted xs @ emitted ys"
  by (induction xs rule: emitted.induct) simp_all

lemma emitted_map_BlockWritten: "emitted (map BlockWritten bs) = bs"
  by (induction bs) simp_all

lemma write_batches_acts:
  "write_batches sp s batches = (s', acts) \<Longrightarrow>
     \<exists>blocks. acts = map BlockWritten blocks \<and> map BlockData blocks = batches"
proof (induction batches arbitrary: s s' acts)
  case Nil
  then show ?case by simp
next
  case (Cons b bs)
  obtain s2 acts2 where w: "write_batches sp (WriteBlock sp s (CreateNextBlock sp s b)) bs = (s2, acts2)"
    by (cases "write_batches sp (WriteBlock sp s (CreateNextBlock sp s b)) bs")
  from Cons.IH [OF w] obtain blocks where bl: "acts2 = map BlockWritten blocks" "map BlockData blocks = bs"
    by blast
  from Cons.prems w have "acts = BlockWritten (CreateNextBlock sp s b) # acts2"
    by (simp add: Let_def)
  with bl show ?case
    by (intro exI [of _ "CreateNextBlock sp s b # blocks"]) (simp add: CreateNextBlock_def)
qed

lemma write_batches_pend:
  "\<forall>s b. pend (WriteBlock sp s b) = pend s \<Longrightarrow> write_batches sp s batches = (s', acts) \<Longrightarrow>
     pend s' = pend s"
  by (induction batches arbitrary: s s' acts) (auto simp: Let_def split: prod.splits)

lemma len_0_elems: "len b = 0 \<longleftrightarrow> elems b = []"
  by (cases b) (simp_all add: len_def elems_def)

lemma contract_Ordered:
  assumes "cutter_contract sp pend" and "Ordered sp s msg = ((bs, ok), s')"
  shows "concat bs @ pend s' = pend s @ (if ok then [msg] else [])"
proof -
  from assms(1) have "concat (fst (fst (Ordered sp s msg))) @ pend (snd (Ordered sp s msg)) =
      pend s @ (if snd (fst (Ordered sp s msg)) then [msg] else [])"
    unfolding cutter_contract_def by blast
  with assms(2) show ?thesis by simp
qed

lemma contract_Cut:
  assumes "cutter_contract sp pend" and "Cut sp s = (b, s')"
  shows "elems b = pend s" and "pend s' = []"
proof -
  from assms(1) have "elems (fst (Cut sp s)) = pend s \<and> pend (snd (Cut sp s)) = []"
    unfolding cutter_contract_def by blast
  with assms(2) show "elems b = pend s" and "pend s' = []" by simp_all
qed

lemma contract_WriteBlock: "cutter_contract sp pend \<Longrightarrow> pend (WriteBlock sp s b) = pend s"
  unfolding cutter_contract_def by blast

lemma contract_WriteConfigBlock:
  "cutter_contract sp pend \<Longrightarrow> pend (WriteConfigBlock sp s b) = pend s"
  unfolding cutter_contract_def by blast

lemma on_timer_batches:
  "on_timer sp st = Continue st' acts \<Longrightarrow>
     map BlockData (emitted acts) = step_batches sp st TimerFired"
  by (auto simp: on_timer_def step_batches_def Let_def CreateNextBlock_def split: prod.splits if_splits)

lemma on_timer_pend:
  assumes "cutter_contract sp pend" and "on_timer sp st = Continue st' acts"
  shows "concat (map BlockData (emitted acts)) @ pend (support st') = pend (support st)"
proof -
  obtain b s1 where c: "Cut sp (support st) = (b, s1)" by (cases "Cut sp (support st)")
  note e = contract_Cut(1) [OF assms(1) c] and p = contract_Cut(2) [OF assms(1) c]
    and w = contract_WriteBlock [OF assms(1)]
  show ?thesis using assms(2) c e p w
    by (auto simp: on_timer_def Let_def CreateNextBlock_def len_0_elems split: if_splits)
qed

lemma on_config_update_ok:
  assumes "ProcessNormalMsg sp (support st) msg = Inr v" and "Cut sp (support st) = (batch, s1)"
  shows "on_config_update sp st msg =
     (case batch of
        None \<Rightarrow>
          Continue \<lparr>support = WriteConfigBlock sp s1 (CreateNextBlock sp s1 [msg]), timer = None\<rparr>
            [ConfigBlockWritten (CreateNextBlock sp s1 [msg])]
      | Some b \<Rightarrow>
          (let s2 = WriteBlock sp s1 (CreateNextBlock sp s1 b)
           in Continue \<lparr>support = WriteConfigBlock sp s2 (CreateNextBlock sp s2 [msg]), timer = None\<rparr>
                [BlockWritten (CreateNextBlock sp s1 b), ConfigBlockWritten (CreateNextBlock sp s2 [msg])]))"
  using assms by (simp add: on_config_update_def Let_def split: option.splits)

lemma on_config_update_bad:
  "ProcessNormalMsg sp (support st) msg = Inl e \<Longrightarrow>
     on_config_update sp st msg = Continue st [LogWarning ''Discarding bad config message'']"
  by (simp add: on_config_update_def)

lemma on_normal_bad:
  "ProcessNormalMsg sp (support st) msg = Inl e \<Longrightarrow>
     on_normal sp st msg = Continue st [LogWarning ''Discarding bad normal message'']"
  by (simp add: on_normal_def)

lemma on_normal_ok:
  assumes "ProcessNormalMsg sp (support st) msg = Inr v"
    and "Ordered sp (support st) msg = ((batches, ok), s1)"
  shows "on_normal sp st msg =
     (if ok \<and> batches = [] \<and> timer st = None
      then Continue \<lparr>support = s1, timer = Some (BatchTimeout sp s1)\<rparr> []
      else Continue
             \<lparr>support = fst (write_batches sp s1 batches),
              timer = (if batches = [] then timer st else None)\<rparr>
             (snd (write_batches sp s1 batches)))"
  using assms by (auto simp: on_normal_def Let_def split: prod.splits)

lemma on_message_class:
  assumes "ChannelHeader msg = Inr chdr" and "ClassifyMsg sp (support st) chdr = Inr class"
  shows "on_message sp st msg =
     (if class = ConfigUpdateMsg then on_config_update sp st msg
      else if class = NormalMsg then on_normal sp st msg
      else Panicked ''Unsupported msg classification'')"
  using assms by (simp add: on_message_def)

lemma passes_iff:
  "passes sp s msg class \<longleftrightarrow>
     (\<exists>chdr v. ChannelHeader msg = Inr chdr \<and> ClassifyMsg sp s chdr = Inr class \<and>
        ProcessNormalMsg sp s msg = Inr v)"
  by (auto simp: passes_def split: sum.splits)

lemma classes_differ: "NormalMsg \<noteq> ConfigUpdateMsg"
  by (simp add: NormalMsg_def ConfigUpdateMsg_def)

lemma on_message_Continue:
  assumes "on_message sp st msg = Continue st' acts"
  obtains
    (config_ok) chdr v where "ChannelHeader msg = Inr chdr"
      "ClassifyMsg sp (support st) chdr = Inr ConfigUpdateMsg"
      "ProcessNormalMsg sp (support st) msg = Inr v"
      "on_config_update sp st msg = Continue st' acts"
  | (normal_ok) chdr v where "ChannelHeader msg = Inr chdr"
      "ClassifyMsg sp (support st) chdr = Inr NormalMsg"
      "ProcessNormalMsg sp (support st) msg = Inr v"
      "on_normal sp st msg = Continue st' acts"
  | (discarded) chdr cls e where "ChannelHeader msg = Inr chdr"
      "ClassifyMsg sp (support st) chdr = Inr cls"
      "ProcessNormalMsg sp (support st) msg = Inl e"
      "st' = st" "emitted acts = []"
proof -
  from assms obtain chdr where h: "ChannelHeader msg = Inr chdr"
    by (auto simp: on_message_def split: sum.splits)
  with assms obtain cls where c: "ClassifyMsg sp (support st) chdr = Inr cls"
    by (auto simp: on_message_def split: sum.splits)
  note m = on_message_class [OF h c]
  show thesis
  proof (cases "ProcessNormalMsg sp (support st) msg")
    case (Inl e)
    with assms m have "st' = st \<and> emitted acts = []"
      by (auto simp: on_config_update_bad on_normal_bad split: if_splits)
    with h c Inl show thesis by (intro discarded) auto
  next
    case (Inr v)
    show thesis
    proof (cases "cls = ConfigUpdateMsg")
      case True
      with assms m h c Inr show thesis by (intro config_ok) auto
    next
      case False
      with assms m have "cls = NormalMsg" by (auto split: if_splits)
      with assms m h c Inr False show thesis by (intro normal_ok) auto
    qed
  qed
qed

lemma on_config_update_inv:
  assumes "ProcessNormalMsg sp (support st) msg = Inr v"
    and "on_config_update sp st msg = Continue st' acts"
  shows "map BlockData (emitted acts) =
           (case fst (Cut sp (support st)) of None \<Rightarrow> [] | Some b \<Rightarrow> [b]) @ [[msg]]"
    and "cutter_contract sp pend \<Longrightarrow>
           concat (map BlockData (emitted acts)) @ pend (support st') = pend (support st) @ [msg]"
proof -
  obtain batch s1 where c: "Cut sp (support st) = (batch, s1)" by (cases "Cut sp (support st)")
  note r = on_config_update_ok [OF assms(1) c]
  from assms(2) r show "map BlockData (emitted acts) =
           (case fst (Cut sp (support st)) of None \<Rightarrow> [] | Some b \<Rightarrow> [b]) @ [[msg]]"
    by (cases batch) (auto simp: c CreateNextBlock_def Let_def)
  assume cc: "cutter_contract sp pend"
  note e = contract_Cut(1) [OF cc c] and p = contract_Cut(2) [OF cc c]
    and w = contract_WriteBlock [OF cc] and w' = contract_WriteConfigBlock [OF cc]
  from assms(2) r e p w w'
  show "concat (map BlockData (emitted acts)) @ pend (support st') = pend (support st) @ [msg]"
    by (cases batch) (auto simp: CreateNextBlock_def Let_def elems_def)
qed

lemma on_normal_inv:
  assumes "ProcessNormalMsg sp (support st) msg = Inr v"
    and "on_normal sp st msg = Continue st' acts"
  shows "map BlockData (emitted acts) = fst (fst (Ordered sp (support st) msg))"
    and "cutter_contract sp pend \<Longrightarrow>
           concat (map BlockData (emitted acts)) @ pend (support st') =
             pend (support st) @ (if snd (fst (Ordered sp (support st) msg)) then [msg] else [])"
proof -
  obtain batches ok s1 where o: "Ordered sp (support st) msg = ((batches, ok), s1)"
    by (metis surj_pair)
  obtain s2 acts2 where w: "write_batches sp s1 batches = (s2, acts2)"
    by (cases "write_batches sp s1 batches")
  from write_batches_acts [OF w] obtain blocks
    where bl: "acts2 = map BlockWritten blocks" "map BlockData blocks = batches"
    by blast
  note r = on_normal_ok [OF assms(1) o]
  from assms(2) r w bl have a: "map BlockData (emitted acts) = batches"
    by (auto simp: emitted_map_BlockWritten split: if_splits)
  then show "map BlockData (emitted acts) = fst (fst (Ordered sp (support st) msg))"
    by (simp add: o)
  assume cc: "cutter_contract sp pend"
  from contract_Ordered [OF cc o]
  have "concat batches @ pend s1 = pend (support st) @ (if ok then [msg] else [])" .
  moreover from cc have "\<forall>s b. pend (WriteBlock sp s b) = pend s"
    by (simp add: contract_WriteBlock)
  from write_batches_pend [OF this w] have "pend s2 = pend s1" .
  moreover from assms(2) r w have "pend (support st') = pend s1 \<or> pend (support st') = pend s2"
    by (auto split: if_splits)
  ultimately show "concat (map BlockData (emitted acts)) @ pend (support st') =
             pend (support st) @ (if snd (fst (Ordered sp (support st) msg)) then [msg] else [])"
    using a o by auto
qed

lemma on_message_inv:
  assumes "on_message sp st msg = Continue st' acts"
  shows "map BlockData (emitted acts) = step_batches sp st (Recv msg)"
    and "cutter_contract sp pend \<Longrightarrow>
           concat (map BlockData (emitted acts)) @ pend (support st') =
             pend (support st) @ (if valid_msg sp (support st) msg then [msg] else [])"
proof -
  have both: "map BlockData (emitted acts) = step_batches sp st (Recv msg) \<and>
     (cutter_contract sp pend \<longrightarrow>
        concat (map BlockData (emitted acts)) @ pend (support st') =
          pend (support st) @ (if valid_msg sp (support st) msg then [msg] else []))"
  using assms proof (cases rule: on_message_Continue)
    case (config_ok chdr v)
    then have p: "passes sp (support st) msg ConfigUpdateMsg"
      by (auto simp: passes_iff)
    with on_config_update_inv [OF config_ok(3,4)] show ?thesis
      by (auto simp: step_batches_def valid_msg_def)
  next
    case (normal_ok chdr v)
    then have p: "passes sp (support st) msg NormalMsg" "\<not> passes sp (support st) msg ConfigUpdateMsg"
      using classes_differ by (auto simp: passes_iff)
    with on_normal_inv [OF normal_ok(3,4)] show ?thesis
      by (auto simp: step_batches_def valid_msg_def)
  next
    case (discarded chdr cls e)
    then have "\<And>c. \<not> passes sp (support st) msg c"
      by (auto simp: passes_iff)
    with discarded show ?thesis
      by (auto simp: step_batches_def valid_msg_def)
  qed
  from both show "map BlockData (emitted acts) = step_batches sp st (Recv msg)" by simp
  assume "cutter_contract sp pend"
  with both [THEN conjunct2] show "concat (map BlockData (emitted acts)) @ pend (support st') =
             pend (support st) @ (if valid_msg sp (support st) msg then [msg] else [])" by (rule mp)
qed

lemma main_step_batches:
  assumes "main_step sp st ev = Continue st' acts"
  shows "map BlockData (emitted acts) = step_batches sp st ev"
proof (cases ev)
  case (Recv msg)
  with assms on_message_inv(1) [of sp st msg st' acts] show ?thesis
    by (simp add: main_step_def)
next
  case TimerFired
  with assms on_timer_batches [of sp st st' acts] show ?thesis
    by (simp add: main_step_def split: if_splits)
next
  case ExitSignal
  with assms show ?thesis by (simp add: main_step_def)
qed

lemma main_step_pend:
  assumes "cutter_contract sp pend" and "main_step sp st ev = Continue st' acts"
  shows "concat (map BlockData (emitted acts)) @ pend (support st') =
           pend (support st) @ admitted_by sp st ev"
proof (cases ev)
  case (Recv msg)
  with assms on_message_inv(2) [of sp st msg st' acts pend] show ?thesis
    by (simp add: main_step_def admitted_by_def)
next
  case TimerFired
  with assms on_timer_pend [of sp pend st st' acts] show ?thesis
    by (simp add: main_step_def admitted_by_def split: if_splits)
next
  case ExitSignal
  with assms show ?thesis by (simp add: main_step_def)
qed

lemma main_step_Return: "main_step sp st ev = Return acts \<Longrightarrow> emitted acts = []"
  by (cases ev)
    (auto simp: main_step_def on_message_def on_config_update_def on_normal_def on_timer_def
      Let_def split: sum.splits if_splits prod.splits option.splits)

lemma main_loop_batches:
  "main_loop sp st evs = (r, st', acts) \<Longrightarrow>
     map BlockData (emitted acts) = cutter_batches sp st evs"
proof (induction evs arbitrary: st r st' acts)
  case Nil
  then show ?case by simp
next
  case (Cons ev evs)
  show ?case
  proof (cases "main_step sp st ev")
    case (Continue st1 a1)
    obtain r2 st2 a2 where l: "main_loop sp st1 evs = (r2, st2, a2)"
      by (cases "main_loop sp st1 evs")
    with Cons.prems Continue have "acts = a1 @ a2" by simp
    with Cons.IH [OF l] main_step_batches [OF Continue] Continue show ?thesis
      by (simp add: emitted_append)
  next
    case (Return a)
    with Cons.prems main_step_Return [OF Return] show ?thesis by simp
  next
    case (Panicked p)
    with Cons.prems show ?thesis by simp
  next
    case NotSelectable
    with Cons.prems Cons.IH [of st r st' acts] show ?thesis by simp
  qed
qed

lemma main_loop_pend:
  assumes "cutter_contract sp pend"
  shows "main_loop sp st evs = (r, st', acts) \<Longrightarrow>
     concat (map BlockData (emitted acts)) @ pend (support st') =
       pend (support st) @ admitted_valid sp st evs"
proof (induction evs arbitrary: st r st' acts)
  case Nil
  then show ?case by simp
next
  case (Cons ev evs)
  show ?case
  proof (cases "main_step sp st ev")
    case (Continue st1 a1)
    obtain r2 st2 a2 where l: "main_loop sp st1 evs = (r2, st2, a2)"
      by (cases "main_loop sp st1 evs")
    with Cons.prems Continue have e: "acts = a1 @ a2" "st' = st2" by simp_all
    from Cons.IH [OF l] have "concat (map BlockData (emitted a2)) @ pend (support st2) =
        pend (support st1) @ admitted_valid sp st1 evs" .
    moreover from main_step_pend [OF assms Continue]
    have "concat (map BlockData (emitted a1)) @ pend (support st1) =
        pend (support st) @ admitted_by sp st ev" .
    ultimately have "concat (map BlockData (emitted a1)) @ concat (map BlockData (emitted a2)) @
        pend (support st2) = pend (support st) @ admitted_by sp st ev @ admitted_valid sp st1 evs"
      by (metis append.assoc)
    with e Continue show ?thesis
      by (simp add: emitted_append)
  next
    case (Return a)
    with Cons.prems main_step_Return [OF Return] show ?thesis by simp
  next
    case (Panicked p)
    with Cons.prems show ?thesis by simp
  next
    case NotSelectable
    with Cons.prems Cons.IH [of st r st' acts] show ?thesis by simp
  qed
qed

lemma ref_support_contract: "cutter_contract (ref_support n) pending"
  by (simp add: cutter_contract_def ref_support_def elems_def)

lemmas ref_defs = ref_support_def ref_init_def signed_env_def main_step_def on_message_def
  on_normal_def on_config_update_def on_timer_def ChannelHeader_def CreateNextBlock_def
  NormalMsg_def ConfigUpdateMsg_def len_def elems_def Let_def

subsection \<open>The ordering guarantee\<close>

text \<open>
  Claim C1, as amended. With a block cutter that keeps its contract, at every point of a
  run of the loop the envelopes of the blocks emitted so far, concatenated in emission
  order, followed by the envelopes still pending in the cutter, are what was pending at the
  start followed by the valid messages in admission order. So the emitted envelopes are a
  prefix of that sequence, no envelope is emitted twice when the admitted messages are
  distinct, and the blocks are, one for one and in order, the batches the cutter
  determined (with each configuration message a batch of its own).
\<close>

theorem ordering_guarantee:
  assumes "cutter_contract sp pend" and "main_loop sp st evs = (r, st', acts)"
  shows "concat (map BlockData (emitted acts)) @ pend (support st') =
           pend (support st) @ admitted_valid sp st evs
       \<and> prefix (concat (map BlockData (emitted acts))) (pend (support st) @ admitted_valid sp st evs)
       \<and> (distinct (pend (support st) @ admitted_valid sp st evs) \<longrightarrow>
            distinct (concat (map BlockData (emitted acts))))
       \<and> map BlockData (emitted acts) = cutter_batches sp st evs"
proof -
  note e = main_loop_pend [OF assms]
  then have p: "prefix (concat (map BlockData (emitted acts)))
      (pend (support st) @ admitted_valid sp st evs)"
    by (metis prefixI)
  have "distinct (concat (map BlockData (emitted acts)))"
    if "distinct (pend (support st) @ admitted_valid sp st evs)"
    using that e by (metis distinct_append)
  with e p main_loop_batches [OF assms(2)] show ?thesis by blast
qed

theorem ordering_guarantee_witness:
  "cutter_contract (ref_support 2) pending \<and>
   map BlockData (emitted (snd (snd (main_loop (ref_support 2) ref_init
      [Recv (signed_env MESSAGE ''ch'' 1), Recv (signed_env MESSAGE ''ch'' 2),
       Recv (signed_env MESSAGE ''ch'' 3), TimerFired,
       Recv (signed_env CONFIG_UPDATE ''ch'' 4), ExitSignal])))) =
     [[signed_env MESSAGE ''ch'' 1, signed_env MESSAGE ''ch'' 2], [signed_env MESSAGE ''ch'' 3],
      [signed_env CONFIG_UPDATE ''ch'' 4]] \<and>
   admitted_valid (ref_support 2) ref_init
      [Recv (signed_env MESSAGE ''ch'' 1), Recv (signed_env MESSAGE ''ch'' 2),
       Recv (signed_env MESSAGE ''ch'' 3), TimerFired,
       Recv (signed_env CONFIG_UPDATE ''ch'' 4), ExitSignal] =
     [signed_env MESSAGE ''ch'' 1, signed_env MESSAGE ''ch'' 2, signed_env MESSAGE ''ch'' 3,
      signed_env CONFIG_UPDATE ''ch'' 4]"
proof -
  let ?evs = "[Recv (signed_env MESSAGE ''ch'' 1), Recv (signed_env MESSAGE ''ch'' 2),
       Recv (signed_env MESSAGE ''ch'' 3), TimerFired,
       Recv (signed_env CONFIG_UPDATE ''ch'' 4), ExitSignal]"
  have c: "cutter_contract (ref_support 2) pending" by (rule ref_support_contract)
  obtain r st' acts where m: "main_loop (ref_support 2) ref_init ?evs = (r, st', acts)"
    by (cases "main_loop (ref_support 2) ref_init ?evs")
  have b: "map BlockData (emitted acts) =
     [[signed_env MESSAGE ''ch'' 1, signed_env MESSAGE ''ch'' 2], [signed_env MESSAGE ''ch'' 3],
      [signed_env CONFIG_UPDATE ''ch'' 4]]" and p: "pending (support st') = []"
    using m by (auto simp: ref_defs)
  from ordering_guarantee [OF c m] b p
  have "admitted_valid (ref_support 2) ref_init ?evs =
     [signed_env MESSAGE ''ch'' 1, signed_env MESSAGE ''ch'' 2, signed_env MESSAGE ''ch'' 3,
      signed_env CONFIG_UPDATE ''ch'' 4]"
    by (simp add: ref_init_def)
  with c b m show ?thesis by simp
qed

text \<open>
  The emitted blocks need not reproduce all valid messages: with a cutter that cuts at two
  messages, one valid message followed by the exit signal is in no block.
\<close>

theorem ordering_guarantee_counterexample:
  "fst (main (ref_support 2) \<lparr>pending = [], ledger = [], config_sequence = 0\<rparr>
     [Recv (signed_env MESSAGE ''ch'' 1), ExitSignal]) = Exited \<and>
   admitted_valid (ref_support 2) ref_init [Recv (signed_env MESSAGE ''ch'' 1), ExitSignal] =
     [signed_env MESSAGE ''ch'' 1] \<and>
   concat (map BlockData (emitted (snd (snd
     (main (ref_support 2) \<lparr>pending = [], ledger = [], config_sequence = 0\<rparr>
        [Recv (signed_env MESSAGE ''ch'' 1), ExitSignal]))))) = []"
  by (simp add: main_def ref_defs admitted_by_def valid_msg_def passes_def)

subsection \<open>Configuration messages\<close>

text \<open>
  Claim C2. A message of the configuration-update class that passes the re-validation
  makes the loop cut the pending batch by force and, when \<open>Cut\<close> returns a batch (any
  batch that is not \<open>nil\<close>, so every batch that is not empty), write it as an ordinary
  block; then write, with \<open>WriteConfigBlock\<close>, a block that holds this one message and
  nothing else; and clear the timer.
\<close>

theorem config_message_own_block:
  assumes "ChannelHeader msg = Inr chdr"
    and "ClassifyMsg sp (support st) chdr = Inr ConfigUpdateMsg"
    and "ProcessNormalMsg sp (support st) msg = Inr v"
    and "Cut sp (support st) = (batch, s1)"
  shows "\<exists>st' pre cb.
           main_step sp st (Recv msg) = Continue st' (pre @ [ConfigBlockWritten cb]) \<and>
           BlockData cb = [msg] \<and> timer st' = None \<and>
           pre = (case batch of None \<Rightarrow> [] | Some b \<Rightarrow> [BlockWritten (CreateNextBlock sp s1 b)]) \<and>
           (len batch \<noteq> 0 \<longrightarrow> (\<exists>blk. pre = [BlockWritten blk] \<and> BlockData blk = elems batch)) \<and>
           support st' =
             WriteConfigBlock sp
               (case batch of None \<Rightarrow> s1 | Some b \<Rightarrow> WriteBlock sp s1 (CreateNextBlock sp s1 b)) cb"
proof -
  from assms(1,2) have "main_step sp st (Recv msg) = on_config_update sp st msg"
    by (simp add: main_step_def on_message_class)
  with on_config_update_ok [OF assms(3,4)] show ?thesis
    by (cases batch) (simp_all add: Let_def CreateNextBlock_def len_def elems_def)
qed

theorem config_message_own_block_witness:
  "main_step (ref_support 5)
     \<lparr>support = \<lparr>pending = [signed_env MESSAGE ''ch'' 1], ledger = [], config_sequence = 0\<rparr>,
      timer = Some 2000000000\<rparr>
     (Recv (signed_env CONFIG_UPDATE ''ch'' 2)) =
   Continue
     \<lparr>support = \<lparr>pending = [],
        ledger = [\<lparr>BlockHeader = 0, BlockData = [signed_env MESSAGE ''ch'' 1]\<rparr>,
                  \<lparr>BlockHeader = 1, BlockData = [signed_env CONFIG_UPDATE ''ch'' 2]\<rparr>],
        config_sequence = 1\<rparr>,
      timer = None\<rparr>
     [BlockWritten \<lparr>BlockHeader = 0, BlockData = [signed_env MESSAGE ''ch'' 1]\<rparr>,
      ConfigBlockWritten \<lparr>BlockHeader = 1, BlockData = [signed_env CONFIG_UPDATE ''ch'' 2]\<rparr>]"
  using config_message_own_block [of "signed_env CONFIG_UPDATE ''ch'' 2"
      "\<lparr>Type = CONFIG_UPDATE, Version = 0, ChannelId = ''ch'', Epoch = 0\<rparr>"
      "ref_support 5"
      "\<lparr>support = \<lparr>pending = [signed_env MESSAGE ''ch'' 1], ledger = [], config_sequence = 0\<rparr>,
        timer = Some 2000000000\<rparr>"
      0 "Some [signed_env MESSAGE ''ch'' 1]" "\<lparr>pending = [], ledger = [], config_sequence = 0\<rparr>"]
  by (simp add: ref_defs)

subsection \<open>Normal messages and the batch timer\<close>

text \<open>
  Claim C5, as amended. After a valid normal message has been handed to \<open>Ordered\<close>: if
  the cutter reports \<open>ok\<close>, returns no batch and no timer is active, the timer is armed
  with the batch timeout of the shared configuration and nothing is written; if it returns
  no batch otherwise (a timer is active, or the cutter does not report \<open>ok\<close>), the timer
  stays as it is and nothing is written; if it returns one or more batches, each is
  written as an ordinary block, in order, and the timer is cleared.
\<close>

theorem normal_message_timer:
  assumes "ChannelHeader msg = Inr chdr"
    and "ClassifyMsg sp (support st) chdr = Inr NormalMsg"
    and "ProcessNormalMsg sp (support st) msg = Inr v"
    and "Ordered sp (support st) msg = ((batches, ok), s1)"
  shows "(ok \<and> batches = [] \<and> timer st = None \<longrightarrow>
            main_step sp st (Recv msg) =
              Continue \<lparr>support = s1, timer = Some (BatchTimeout sp s1)\<rparr> []) \<and>
         (batches = [] \<and> \<not> (ok \<and> timer st = None) \<longrightarrow>
            main_step sp st (Recv msg) = Continue \<lparr>support = s1, timer = timer st\<rparr> []) \<and>
         (batches \<noteq> [] \<longrightarrow>
            (\<exists>st' blocks.
               main_step sp st (Recv msg) = Continue st' (map BlockWritten blocks) \<and>
               map BlockData blocks = batches \<and> timer st' = None))"
proof -
  from assms(1,2) have m: "main_step sp st (Recv msg) = on_normal sp st msg"
    using classes_differ by (simp add: main_step_def on_message_class)
  obtain s2 acts where w: "write_batches sp s1 batches = (s2, acts)"
    by (cases "write_batches sp s1 batches")
  from write_batches_acts [OF w] obtain blocks
    where "acts = map BlockWritten blocks" "map BlockData blocks = batches"
    by blast
  with m w on_normal_ok [OF assms(3,4)] show ?thesis
    by auto
qed

theorem normal_message_timer_witness:
  "main_step (ref_support 2) ref_init (Recv (signed_env MESSAGE ''ch'' 1)) =
     Continue
       \<lparr>support = \<lparr>pending = [signed_env MESSAGE ''ch'' 1], ledger = [], config_sequence = 0\<rparr>,
        timer = Some 2000000000\<rparr> [] \<and>
   (\<exists>st'. main_step (ref_support 2)
       \<lparr>support = \<lparr>pending = [signed_env MESSAGE ''ch'' 1], ledger = [], config_sequence = 0\<rparr>,
        timer = Some 2000000000\<rparr> (Recv (signed_env MESSAGE ''ch'' 2)) =
     Continue st'
       [BlockWritten \<lparr>BlockHeader = 0,
          BlockData = [signed_env MESSAGE ''ch'' 1, signed_env MESSAGE ''ch'' 2]\<rparr>] \<and>
     timer st' = None)"
proof -
  have a: "main_step (ref_support 2) ref_init (Recv (signed_env MESSAGE ''ch'' 1)) =
     Continue
       \<lparr>support = \<lparr>pending = [signed_env MESSAGE ''ch'' 1], ledger = [], config_sequence = 0\<rparr>,
        timer = Some 2000000000\<rparr> []"
    using normal_message_timer [of "signed_env MESSAGE ''ch'' 1"
      "\<lparr>Type = MESSAGE, Version = 0, ChannelId = ''ch'', Epoch = 0\<rparr>"
      "ref_support 2" ref_init 0 "[]" True
      "\<lparr>pending = [signed_env MESSAGE ''ch'' 1], ledger = [], config_sequence = 0\<rparr>"]
    by (simp add: ref_support_def ref_init_def signed_env_def ChannelHeader_def)
  have b: "\<exists>st'. main_step (ref_support 2)
       \<lparr>support = \<lparr>pending = [signed_env MESSAGE ''ch'' 1], ledger = [], config_sequence = 0\<rparr>,
        timer = Some 2000000000\<rparr> (Recv (signed_env MESSAGE ''ch'' 2)) =
     Continue st'
       [BlockWritten \<lparr>BlockHeader = 0,
          BlockData = [signed_env MESSAGE ''ch'' 1, signed_env MESSAGE ''ch'' 2]\<rparr>] \<and>
     timer st' = None"
    using normal_message_timer [of "signed_env MESSAGE ''ch'' 2"
      "\<lparr>Type = MESSAGE, Version = 0, ChannelId = ''ch'', Epoch = 0\<rparr>"
      "ref_support 2"
      "\<lparr>support = \<lparr>pending = [signed_env MESSAGE ''ch'' 1], ledger = [], config_sequence = 0\<rparr>,
        timer = Some 2000000000\<rparr>" 0
      "[[signed_env MESSAGE ''ch'' 1, signed_env MESSAGE ''ch'' 2]]" True
      "\<lparr>pending = [], ledger = [], config_sequence = 0\<rparr>"]
    by (simp add: ref_defs)
  from a b show ?thesis by blast
qed

text \<open>
  With a cutter that returns no batch and does not report \<open>ok\<close>, a valid normal message
  arriving while no timer is active arms no timer.
\<close>

theorem normal_message_timer_counterexample:
  "passes ((ref_support 2)\<lparr>Ordered := \<lambda>s msg. (([], False), s)\<rparr>) (support ref_init)
     (signed_env MESSAGE ''ch'' 1) NormalMsg \<and>
   fst (fst (Ordered ((ref_support 2)\<lparr>Ordered := \<lambda>s msg. (([], False), s)\<rparr>) (support ref_init)
     (signed_env MESSAGE ''ch'' 1))) = [] \<and>
   timer ref_init = None \<and>
   main_step ((ref_support 2)\<lparr>Ordered := \<lambda>s msg. (([], False), s)\<rparr>) ref_init
     (Recv (signed_env MESSAGE ''ch'' 1)) = Continue ref_init [] \<and>
   (\<nexists>st' acts d.
      main_step ((ref_support 2)\<lparr>Ordered := \<lambda>s msg. (([], False), s)\<rparr>) ref_init
        (Recv (signed_env MESSAGE ''ch'' 1)) = Continue st' acts \<and> timer st' = Some d)"
  by (simp add: ref_defs passes_def)

subsection \<open>Timer expiry\<close>

text \<open>
  Claim C6. When the batch timer expires the loop clears the timer and cuts the pending
  batch by force. If the batch is empty it logs a warning, writes no block and changes
  nothing else; otherwise it writes exactly one ordinary block, which holds the batch.
\<close>

theorem timer_expiry:
  assumes "timer st = Some d" and "Cut sp (support st) = (batch, s1)"
  shows "\<exists>st' acts. main_step sp st TimerFired = Continue st' acts \<and> timer st' = None \<and>
     (len batch = 0 \<longrightarrow> support st' = s1 \<and>
         acts = [LogWarning ''Batch timer expired with no pending requests, this might indicate a bug'']) \<and>
     (len batch \<noteq> 0 \<longrightarrow>
        (\<exists>block. acts = [LogDebug ''Batch timer expired, creating block'', BlockWritten block] \<and>
           BlockData block = elems batch \<and> support st' = WriteBlock sp s1 block))"
  using assms by (simp add: main_step_def on_timer_def Let_def CreateNextBlock_def)

theorem timer_expiry_witness:
  "main_step (ref_support 5)
     \<lparr>support = \<lparr>pending = [signed_env MESSAGE ''ch'' 1], ledger = [], config_sequence = 0\<rparr>,
      timer = Some 2000000000\<rparr> TimerFired =
   Continue
     \<lparr>support = \<lparr>pending = [],
        ledger = [\<lparr>BlockHeader = 0, BlockData = [signed_env MESSAGE ''ch'' 1]\<rparr>], config_sequence = 0\<rparr>,
      timer = None\<rparr>
     [LogDebug ''Batch timer expired, creating block'',
      BlockWritten \<lparr>BlockHeader = 0, BlockData = [signed_env MESSAGE ''ch'' 1]\<rparr>]"
  using timer_expiry [of
      "\<lparr>support = \<lparr>pending = [signed_env MESSAGE ''ch'' 1], ledger = [], config_sequence = 0\<rparr>,
        timer = Some 2000000000\<rparr>" 2000000000 "ref_support 5"
      "Some [signed_env MESSAGE ''ch'' 1]" "\<lparr>pending = [], ledger = [], config_sequence = 0\<rparr>"]
  by (simp add: ref_defs)

subsection \<open>Failure of the re-classification\<close>

text \<open>
  Claim C10. When the header of a received message cannot be extracted, or the classifier
  fails on it, or it gives a class other than \<open>NormalMsg\<close> and \<open>ConfigUpdateMsg\<close>, the
  iteration panics: the loop is aborted in the state it was in, nothing is logged or
  written for the message, and no later event is handled.
\<close>

theorem reclassification_failure_is_fatal:
  assumes "(\<exists>e. ChannelHeader msg = Inl e) \<or>
     (\<exists>chdr. ChannelHeader msg = Inr chdr \<and>
        ((\<exists>e. ClassifyMsg sp (support st) chdr = Inl e) \<or>
         (\<exists>cls. ClassifyMsg sp (support st) chdr = Inr cls \<and>
            cls \<noteq> NormalMsg \<and> cls \<noteq> ConfigUpdateMsg)))"
  shows "\<exists>reason. main_step sp st (Recv msg) = Panicked reason \<and>
           main_loop sp st (Recv msg # evs) = (Aborted reason, st, [])"
  using assms by (auto simp: main_step_def on_message_def)

theorem reclassification_failure_is_fatal_witness:
  "main_loop ((ref_support 2)\<lparr>ClassifyMsg := \<lambda>s chdr. Inr 2\<rparr>) ref_init
     [Recv (signed_env MESSAGE ''ch'' 1), Recv (signed_env MESSAGE ''ch'' 2), TimerFired] =
   (Aborted ''Unsupported msg classification'', ref_init, [])"
  using reclassification_failure_is_fatal [of "signed_env MESSAGE ''ch'' 1"
      "(ref_support 2)\<lparr>ClassifyMsg := \<lambda>s chdr. Inr 2\<rparr>" ref_init
      "[Recv (signed_env MESSAGE ''ch'' 2), TimerFired]"]
  by (auto simp: ref_support_def signed_env_def ChannelHeader_def NormalMsg_def
      ConfigUpdateMsg_def main_step_def on_message_def)

section \<open>Properties of admission and shutdown\<close>

lemma Halt_closes: "Halt ch = Inr (ch\<lparr>exit_closed := True\<rparr>)"
  by (simp add: Halt_def close_exitChan_def)

lemma Halt_again: "exit_closed ch \<Longrightarrow> Halt ch = Inr ch"
  by (simp add: Halt_def)

lemma Halts_closed: "exit_closed ch \<Longrightarrow> Halts n ch = Inr ch"
  by (induction n) (simp_all add: Halt_again)

lemma Halts_Suc: "Halts (Suc n) ch = Inr (ch\<lparr>exit_closed := True\<rparr>)"
  by (simp add: Halt_closes Halts_closed)

text \<open>A call of \<open>Halt\<close> that runs alone is its two operations one after the other.\<close>

lemma concurrent_Halt_alone:
  "concurrent_Halt ch [AtSelect] [0, 0] =
     (case Halt ch of Inl p \<Rightarrow> Inl p | Inr ch' \<Rightarrow> Inr (ch', [Returned]))"
  by (simp add: halt_op_def Halt_def close_exitChan_def)

text \<open>Two calls of \<open>Halt\<close>, the second begun after the first has returned.\<close>

lemma concurrent_Halt_in_turn:
  "concurrent_Halt newChain [AtSelect, AtSelect] [0, 0, 1, 1] =
     Inr (\<lparr>exit_closed = True, receiver_ready = False\<rparr>, [Returned, Returned])"
  by (simp add: newChain_def halt_op_def close_exitChan_def)

text \<open>
  Calls of \<open>Halt\<close> that do not overlap are idempotent: any number of them, one after the
  other, never panics, and one or more of them have the effect of one: \<open>exitChan\<close> is
  closed by the first and every later call finds it closed and does nothing. The signal of
  \<open>Errored\<close> is ready exactly when the chain has been halted.
\<close>

lemma Halts_idempotent:
  "\<exists>ch'. Halts n ch = Inr ch' \<and>
      (Errored_ready ch' \<longleftrightarrow> 0 < n \<or> exit_closed ch) \<and>
      (0 < n \<longrightarrow> Halts n ch = Halt ch \<and> Halt ch' = Inr ch' \<and> ch' = ch\<lparr>exit_closed := True\<rparr>)"
proof (cases n)
  case 0
  then show ?thesis by (simp add: Errored_ready_def)
next
  case (Suc m)
  then show ?thesis
    by (simp add: Halts_Suc Halt_closes Halt_again Errored_ready_def del: Halts.simps)
qed

lemma Halts_twice:
  "Halts 2 newChain = Halt newChain \<and>
   Halts 2 newChain = Inr \<lparr>exit_closed = True, receiver_ready = False\<rparr> \<and>
   \<not> Errored_ready newChain \<and> Errored_ready \<lparr>exit_closed = True, receiver_ready = False\<rparr>"
  using Halts_idempotent [of 2 newChain]
  by (auto simp: newChain_def Errored_ready_def)

text \<open>
  Claim C7. \<open>Halt\<close> is to be idempotent: any number of calls, also calls that overlap,
  close \<open>exitChan\<close> exactly once and none panics. The code breaks this for calls that
  overlap: on a fresh chain two goroutines both pass the \<open>select\<close> while \<open>exitChan\<close> is
  open, both reach the \<open>close\<close>, and the second \<open>close\<close> panics.
\<close>

theorem Halt_overlapping_calls_panic:
  "concurrent_Halt newChain [AtSelect, AtSelect] [0, 1, 0, 1] = Inl ''close of closed channel''"
  by (simp add: newChain_def halt_op_def close_exitChan_def)

text \<open>
  Claim C9. \<open>Configure\<close> is \<open>Order\<close> of its second envelope, in every state of the
  chain: it returns what \<open>Order\<close> returns, it does not depend on the configuration update
  it is given, and what it hands to the loop is the second envelope, through \<open>sendChan\<close>.
\<close>

theorem Configure_is_Order:
  "Configure ch configUpdate config configSeq = Order ch config configSeq \<and>
   Configure ch configUpdate config configSeq = Configure ch configUpdate' config configSeq \<and>
   concat (map snd (Configure ch configUpdate config configSeq)) =
     (if receiver_ready ch then [Recv config] else [])"
  by (simp add: Configure_def Order_def)

section \<open>Properties of the system channel's message processor\<close>

text \<open>
  Claim C4. For an envelope whose channel ID can be extracted, \<open>ProcessNormalMsg\<close> of the
  system channel fails with \<open>ErrChannelDoesNotExist\<close> when the channel ID is not the system
  channel's, and otherwise returns what the standard channel's \<open>ProcessNormalMsg\<close>
  returns, unchanged. As the standard channel does not fail with \<open>ErrChannelDoesNotExist\<close>
  itself, the failure with that error occurs if and only if the channel ID differs.
\<close>

theorem system_channel_normal:
  assumes "ChannelID msg = Inr channelID"
  shows "(channelID \<noteq> ChainID s \<longrightarrow>
            SystemChannel_ProcessNormalMsg s msg = Inl ErrChannelDoesNotExist) \<and>
         (channelID = ChainID s \<longrightarrow>
            SystemChannel_ProcessNormalMsg s msg = StandardChannel_ProcessNormalMsg s msg) \<and>
         (StandardChannel_ProcessNormalMsg s msg \<noteq> Inl ErrChannelDoesNotExist \<longrightarrow>
            (SystemChannel_ProcessNormalMsg s msg = Inl ErrChannelDoesNotExist \<longleftrightarrow>
             channelID \<noteq> ChainID s))"
  using assms by (simp add: SystemChannel_ProcessNormalMsg_def)

theorem system_channel_normal_witness:
  "SystemChannel_ProcessNormalMsg ref_system (signed_env MESSAGE ''newchan'' 1) =
     Inl ErrChannelDoesNotExist \<and>
   SystemChannel_ProcessNormalMsg ref_system (signed_env MESSAGE ''system'' 1) = Inr 3"
  using system_channel_normal [of "signed_env MESSAGE ''newchan'' 1" "''newchan''" ref_system]
    system_channel_normal [of "signed_env MESSAGE ''system'' 1" "''system''" ref_system]
  by (simp add: ref_system_def signed_env_def ChannelID_def ChannelHeader_def)

text \<open>
  Claim C3. When the channel ID of a configuration update is not the system channel's and
  \<open>ProcessConfigUpdateMsg\<close> of the system channel succeeds, the envelope it returns has
  type \<open>ORDERER_TRANSACTION\<close> and is addressed to the system channel; its data is an
  envelope of type \<open>CONFIG\<close> addressed to the new channel, which holds the proposed
  configuration; both are signed by the local signer; and the sequence returned is the
  system channel's.
\<close>

theorem channel_creation:
  assumes "ChannelID envConfigUpdate = Inr channelID"
    and "channelID \<noteq> ChainID s"
    and "SystemChannel_ProcessConfigUpdateMsg s envConfigUpdate = Inr (config, seq)"
  shows "\<exists>inner newChannelConfigEnv.
           ChannelHeader config =
             Inr \<lparr>Type = ORDERER_TRANSACTION, Version = msgVersion, ChannelId = ChainID s,
                  Epoch = epoch\<rparr> \<and>
           map_option Data (Payload config) = Some (EnvelopeMsg inner) \<and>
           ChannelHeader inner =
             Inr \<lparr>Type = CONFIG, Version = msgVersion, ChannelId = channelID, Epoch = epoch\<rparr> \<and>
           map_option Data (Payload inner) = Some (ConfigEnvelopeMsg newChannelConfigEnv) \<and>
           map_option (Signer s) (Payload config) = Some (Inr (Signature config)) \<and>
           map_option (Signer s) (Payload inner) = Some (Inr (Signature inner)) \<and>
           seq = Sequence s"
  using assms
  by (auto simp: SystemChannel_ProcessConfigUpdateMsg_def CreateSignedEnvelope_def
      ChannelHeader_def Let_def split: sum.splits)

theorem channel_creation_witness:
  "SystemChannel_ProcessConfigUpdateMsg ref_system (signed_env CONFIG_UPDATE ''newchan'' 1) =
     Inr (Envelope (Some (MkPayload
            (Some \<lparr>Type = ORDERER_TRANSACTION, Version = 0, ChannelId = ''system'', Epoch = 0\<rparr>)
            (EnvelopeMsg (Envelope (Some (MkPayload
               (Some \<lparr>Type = CONFIG, Version = 0, ChannelId = ''newchan'', Epoch = 0\<rparr>)
               (ConfigEnvelopeMsg [9]))) [7])))) [7], 3)"
  using channel_creation [of "signed_env CONFIG_UPDATE ''newchan'' 1" "''newchan''" ref_system]
  by (simp add: ref_system_def signed_env_def ChannelID_def ChannelHeader_def
      SystemChannel_ProcessConfigUpdateMsg_def CreateSignedEnvelope_def msgVersion_def epoch_def)

end
